theory Spec2Isabelle
  imports Complex_Main
begin

section \<open>DataFrame rows and the SQL fragment the notebook uses\<close>

text \<open>
  The notebook works on Spark DataFrames: sequences of rows whose cells are addressed by
  column name. A cell holds an integer, a double, a string or a vector, or is NULL.
  A row is modelled as a map from column names to cell values in which \<open>None\<close> is NULL;
  a DataFrame is a list of rows. Doubles are modelled by the real numbers they denote:
  the notebook only compares them with integer literals and copies them.
\<close>

datatype val = IntV int | DblV real | StrV string | VecV "real list"

type_synonym row = "string \<Rightarrow> val option"

type_synonym dataframe = "row list"

text \<open>The terms and conditions that occur in the notebook's filter strings and CASE arms.\<close>

datatype sqlterm = Col string | IntLit int

datatype sqlcond =
    Le sqlterm sqlterm
  | Ge sqlterm sqlterm
  | Lt sqlterm sqlterm
  | Gt sqlterm sqlterm
  | In sqlterm "string list"
  | And sqlcond sqlcond
  | Or sqlcond sqlcond

fun eval_term :: "row \<Rightarrow> sqlterm \<Rightarrow> val option" where
  "eval_term r (Col c) = r c"
| "eval_term r (IntLit k) = Some (IntV k)"

text \<open>Numeric view of a cell: integers are promoted to double for a comparison.\<close>

fun num_of :: "val option \<Rightarrow> real option" where
  "num_of (Some (IntV i)) = Some (real_of_int i)"
| "num_of (Some (DblV d)) = Some d"
| "num_of _ = None"

text \<open>
  SQL conditions are three-valued: \<open>None\<close> is UNKNOWN. A comparison with a NULL operand
  is UNKNOWN. (A comparison of a non-numeric cell does not occur under the schema the
  notebook reads; it is UNKNOWN here.)
\<close>

definition cmp :: "(real \<Rightarrow> real \<Rightarrow> bool) \<Rightarrow> val option \<Rightarrow> val option \<Rightarrow> bool option" where
  "cmp ord a b =
     (case num_of a of
        None \<Rightarrow> None
      | Some x \<Rightarrow> (case num_of b of None \<Rightarrow> None | Some y \<Rightarrow> Some (ord x y)))"

fun and3 :: "bool option \<Rightarrow> bool option \<Rightarrow> bool option" where
  "and3 (Some False) _ = Some False"
| "and3 _ (Some False) = Some False"
| "and3 (Some True) (Some True) = Some True"
| "and3 _ _ = None"

fun or3 :: "bool option \<Rightarrow> bool option \<Rightarrow> bool option" where
  "or3 (Some True) _ = Some True"
| "or3 _ (Some True) = Some True"
| "or3 (Some False) (Some False) = Some False"
| "or3 _ _ = None"

fun in3 :: "val option \<Rightarrow> string list \<Rightarrow> bool option" where
  "in3 (Some (StrV s)) ss = Some (s \<in> set ss)"
| "in3 _ ss = None"

fun eval_cond :: "row \<Rightarrow> sqlcond \<Rightarrow> bool option" where
  "eval_cond r (Le a b) = cmp (\<le>) (eval_term r a) (eval_term r b)"
| "eval_cond r (Ge a b) = cmp (\<ge>) (eval_term r a) (eval_term r b)"
| "eval_cond r (Lt a b) = cmp (<) (eval_term r a) (eval_term r b)"
| "eval_cond r (Gt a b) = cmp (>) (eval_term r a) (eval_term r b)"
| "eval_cond r (In a ss) = in3 (eval_term r a) ss"
| "eval_cond r (And p q) = and3 (eval_cond r p) (eval_cond r q)"
| "eval_cond r (Or p q) = or3 (eval_cond r p) (eval_cond r q)"

text \<open>\<open>df.filter(cond)\<close> keeps the rows on which the condition is TRUE (not UNKNOWN).\<close>

definition df_filter :: "sqlcond \<Rightarrow> dataframe \<Rightarrow> dataframe" where
  "df_filter c df = filter (\<lambda>r. eval_cond r c = Some True) df"

text \<open>\<open>df.drop(name)\<close> removes a column from every row.\<close>

definition drop_col :: "string \<Rightarrow> row \<Rightarrow> row" where
  "drop_col c r = r(c := None)"

definition df_drop :: "string \<Rightarrow> dataframe \<Rightarrow> dataframe" where
  "df_drop c df = map (drop_col c) df"

text \<open>
  \<open>CASE WHEN c1 THEN v1 WHEN c2 THEN v2 ... END\<close> without ELSE: the value of the first arm
  whose condition is TRUE, NULL when no arm is taken.
\<close>

fun case_when :: "(sqlcond \<times> val) list \<Rightarrow> row \<Rightarrow> val option" where
  "case_when [] r = None"
| "case_when ((c, v) # arms) r =
     (if eval_cond r c = Some True then Some v else case_when arms r)"

text \<open>\<open>SELECT *, e AS name FROM t\<close>: every row keeps its columns and gains one.\<close>

definition select_star_with :: "string \<Rightarrow> (row \<Rightarrow> val option) \<Rightarrow> dataframe \<Rightarrow> dataframe" where
  "select_star_with name e df = map (\<lambda>r. r(name := e r)) df"


section \<open>Cleaning (training path and validation path)\<close>

text \<open>The training filter string \<open>passenger_count > 0 and passenger_count < 8\<close>.\<close>

definition train_filter :: sqlcond where
  "train_filter =
     And (Gt (Col ''passenger_count'') (IntLit 0)) (Lt (Col ''passenger_count'') (IntLit 8))"

definition taxi_df_train_cleaned :: "dataframe \<Rightarrow> dataframe" where
  "taxi_df_train_cleaned taxi_train_df =
     df_filter train_filter (df_drop ''hack_license'' (df_drop ''medallion'' taxi_train_df))"

text \<open>The validation filter string; AND associates to the left, which is what \<open>foldl\<close> builds.\<close>

definition valid_filter :: sqlcond where
  "valid_filter =
     foldl And (Gt (Col ''passenger_count'') (IntLit 0))
       [Lt (Col ''passenger_count'') (IntLit 8),
        In (Col ''payment_type'') [''CSH'', ''CRD''],
        Ge (Col ''tip_amount'') (IntLit 0),
        Lt (Col ''tip_amount'') (IntLit 30),
        Ge (Col ''fare_amount'') (IntLit 1),
        Lt (Col ''fare_amount'') (IntLit 200),
        Gt (Col ''trip_distance'') (IntLit 0),
        Lt (Col ''trip_distance'') (IntLit 100),
        Gt (Col ''trip_time_in_secs'') (IntLit 30),
        Lt (Col ''trip_time_in_secs'') (IntLit 7200)]"

definition valid_dropped_columns :: "string list" where
  "valid_dropped_columns =
     [''medallion'', ''hack_license'', ''store_and_fwd_flag'', ''pickup_datetime'',
      ''dropoff_datetime'', ''pickup_longitude'', ''pickup_latitude'', ''dropoff_latitude'',
      ''dropoff_longitude'', ''tip_class'', ''total_amount'', ''tolls_amount'', ''mta_tax'',
      ''direct_distance'', ''surcharge'']"

definition taxi_df_valid_cleaned :: "dataframe \<Rightarrow> dataframe" where
  "taxi_df_valid_cleaned taxi_valid_df =
     df_filter valid_filter (fold df_drop valid_dropped_columns taxi_valid_df)"

text \<open>What the two drop chains do to a single row.\<close>

definition train_drops :: "row \<Rightarrow> row" where
  "train_drops r = drop_col ''hack_license'' (drop_col ''medallion'' r)"

definition valid_drops :: "row \<Rightarrow> row" where
  "valid_drops r = fold drop_col valid_dropped_columns r"

text \<open>
  The schema fact both filters rely on: \<open>passenger_count\<close> is read as an integer column,
  so each of its cells is an integer or NULL.
\<close>

definition int_cell :: "string \<Rightarrow> row \<Rightarrow> bool" where
  "int_cell c r = (case r c of None \<Rightarrow> True | Some (IntV i) \<Rightarrow> True | Some other \<Rightarrow> False)"

text \<open>The ranges of the data model, written as the specification words them.\<close>

definition int_in :: "row \<Rightarrow> string \<Rightarrow> int \<Rightarrow> int \<Rightarrow> bool" where
  "int_in r c lo hi = (case r c of Some (IntV p) \<Rightarrow> lo \<le> p \<and> p \<le> hi | other \<Rightarrow> False)"

definition num_where :: "row \<Rightarrow> string \<Rightarrow> (real \<Rightarrow> bool) \<Rightarrow> bool" where
  "num_where r c P = (case num_of (r c) of Some x \<Rightarrow> P x | None \<Rightarrow> False)"

definition spec_valid_invariant :: "row \<Rightarrow> bool" where
  "spec_valid_invariant r =
     (int_in r ''passenger_count'' 1 7
      \<and> (r ''payment_type'' = Some (StrV ''CSH'') \<or> r ''payment_type'' = Some (StrV ''CRD''))
      \<and> num_where r ''tip_amount'' (\<lambda>x. 0 \<le> x \<and> x < 30)
      \<and> num_where r ''fare_amount'' (\<lambda>x. 1 \<le> x \<and> x < 200)
      \<and> num_where r ''trip_distance'' (\<lambda>x. 0 < x \<and> x < 100)
      \<and> num_where r ''trip_time_in_secs'' (\<lambda>x. 30 < x \<and> x < 7200))"


section \<open>The traffic-time buckets\<close>

text \<open>The arms of the CASE expression of the training cell.\<close>

definition TrafficTimeBins_train :: "(sqlcond \<times> val) list" where
  "TrafficTimeBins_train =
     [(Or (Le (Col ''pickup_hour'') (IntLit 6)) (Ge (Col ''pickup_hour'') (IntLit 20)),
         StrV ''Night''),
      (And (Ge (Col ''pickup_hour'') (IntLit 7)) (Le (Col ''pickup_hour'') (IntLit 10)),
         StrV ''AMRush''),
      (And (Ge (Col ''pickup_hour'') (IntLit 11)) (Le (Col ''pickup_hour'') (IntLit 15)),
         StrV ''Afternoon''),
      (And (Ge (Col ''pickup_hour'') (IntLit 16)) (Le (Col ''pickup_hour'') (IntLit 19)),
         StrV ''PMRush'')]"

text \<open>The arms of the CASE expression of the validation cell.\<close>

definition TrafficTimeBins_valid :: "(sqlcond \<times> val) list" where
  "TrafficTimeBins_valid =
     [(Or (Le (Col ''pickup_hour'') (IntLit 6)) (Ge (Col ''pickup_hour'') (IntLit 20)),
         StrV ''Night''),
      (And (Ge (Col ''pickup_hour'') (IntLit 7)) (Le (Col ''pickup_hour'') (IntLit 10)),
         StrV ''AMRush''),
      (And (Ge (Col ''pickup_hour'') (IntLit 11)) (Le (Col ''pickup_hour'') (IntLit 15)),
         StrV ''Afternoon''),
      (And (Ge (Col ''pickup_hour'') (IntLit 16)) (Le (Col ''pickup_hour'') (IntLit 19)),
         StrV ''PMRush'')]"


definition taxi_df_valid_with_newFeatures :: "dataframe \<Rightarrow> dataframe" where
  "taxi_df_valid_with_newFeatures taxi_valid =
     select_star_with ''TrafficTimeBins'' (case_when TrafficTimeBins_valid) taxi_valid"

text \<open>A row whose only column is \<open>pickup_hour\<close>, and the bucket the training CASE gives it.\<close>

definition null_row :: row where
  "null_row = (\<lambda>c. None)"

definition hour_row :: "int \<Rightarrow> row" where
  "hour_row h = null_row(''pickup_hour'' := Some (IntV h))"

definition time_bucket :: "int \<Rightarrow> val option" where
  "time_bucket h = case_when TrafficTimeBins_train (hour_row h)"

definition time_bucket_valid :: "int \<Rightarrow> val option" where
  "time_bucket_valid h = case_when TrafficTimeBins_valid (hour_row h)"

text \<open>The hours of the day that the training CASE sends to a given label.\<close>

definition hours_of :: "string \<Rightarrow> int set" where
  "hours_of l = {h. 0 \<le> h \<and> h \<le> 23 \<and> time_bucket h = Some (StrV l)}"




section \<open>Categorical encoding\<close>

text \<open>
  Failures of the encoding and assembling stages. They surface when a row is evaluated:
  a label the indexer has not seen, a NULL cell, a cell that is not a number.
\<close>

datatype error = UnseenLabel | NullValue | NotNumeric

text \<open>
  Modelled from the spec: \<open>StringIndexer.fit\<close>, which is library code outside the
  repository. The data model describes the vocabulary it fits: the distinct values of the
  column, indexed by descending frequency, ties broken by first-seen order. The distinct
  values are listed in first-seen order and sorted by descending count with a stable
  insertion sort. (The indexer casts the cells of its input column to strings; the cast is
  injective on the integer and string cells the notebook indexes, so the vocabulary is
  kept over the cell values themselves.)
\<close>

fun first_seen :: "'a list \<Rightarrow> 'a list" where
  "first_seen [] = []"
| "first_seen (x # xs) = x # first_seen (filter (\<lambda>y. y \<noteq> x) xs)"

definition StringIndexer_fit :: "'a list \<Rightarrow> 'a list" where
  "StringIndexer_fit xs = sort_key (\<lambda>v. - int (count_list xs v)) (first_seen xs)"

text \<open>The position of the first occurrence of a value in a list.\<close>

fun first_pos :: "'a list \<Rightarrow> 'a \<Rightarrow> nat" where
  "first_pos [] a = 0"
| "first_pos (x # xs) a = (if x = a then 0 else Suc (first_pos xs a))"

text \<open>The index of a label under a vocabulary; a label outside the vocabulary fails.\<close>

definition label_index :: "'a list \<Rightarrow> 'a \<Rightarrow> error + nat" where
  "label_index labels v =
     (if v \<in> set labels then Inr (first_pos labels v) else Inl UnseenLabel)"

definition StringIndexer_transform :: "val list \<Rightarrow> string \<Rightarrow> string \<Rightarrow> row \<Rightarrow> error + row" where
  "StringIndexer_transform labels inputCol outputCol r =
     (case r inputCol of
        None \<Rightarrow> Inl NullValue
      | Some v \<Rightarrow>
          (case label_index labels v of
             Inl e \<Rightarrow> Inl e
           | Inr i \<Rightarrow> Inr (r(outputCol := Some (DblV (real i))))))"

text \<open>
  Modelled from the spec: \<open>OneHotEncoder\<close>, library code outside the repository. A vector
  with one position per vocabulary entry and the position of the index set; with
  \<open>dropLast\<close> the last position is dropped. The notebook passes \<open>dropLast=False\<close>. The
  size \<open>n\<close> is the size of the vocabulary of the indexer that produced the input column.
\<close>

definition one_hot :: "bool \<Rightarrow> nat \<Rightarrow> nat \<Rightarrow> real list" where
  "one_hot dropLast n i =
     map (\<lambda>j. if j = i then 1 else 0) [0 ..< (if dropLast then n - 1 else n)]"

fun numeric_cell :: "val option \<Rightarrow> error + real" where
  "numeric_cell None = Inl NullValue"
| "numeric_cell (Some (IntV i)) = Inr (real_of_int i)"
| "numeric_cell (Some (DblV d)) = Inr d"
| "numeric_cell (Some other) = Inl NotNumeric"

definition OneHotEncoder_transform :: "bool \<Rightarrow> nat \<Rightarrow> string \<Rightarrow> string \<Rightarrow> row \<Rightarrow> error + row" where
  "OneHotEncoder_transform dropLast n inputCol outputCol r =
     (case numeric_cell (r inputCol) of
        Inl e \<Rightarrow> Inl e
      | Inr x \<Rightarrow> Inr (r(outputCol := Some (VecV (one_hot dropLast n (nat \<lfloor>x\<rfloor>))))))"

text \<open>Indexing a value and one-hot encoding its index, as a pair \<open>sI\<close>, \<open>en\<close> does.\<close>

definition encode_value :: "'a list \<Rightarrow> 'a \<Rightarrow> error + real list" where
  "encode_value labels v =
     (case label_index labels v of
        Inl e \<Rightarrow> Inl e
      | Inr i \<Rightarrow> Inr (one_hot False (length labels) i))"

text \<open>
  The eight stages \<open>sI1, en1, ..., sI4, en4\<close>, as four pairs: the input column of the
  indexer, its output column (the input of the encoder), and the encoder's output column.
\<close>

type_synonym stage = "string \<times> string \<times> string"

definition stages :: "stage list" where
  "stages =
     [(''vendor_id'', ''vendorIndex'', ''vendorVec''),
      (''rate_code'', ''rateIndex'', ''rateVec''),
      (''payment_type'', ''paymentIndex'', ''paymentVec''),
      (''TrafficTimeBins'', ''TrafficTimeBinsIndex'', ''TrafficTimeBinsVec'')]"

text \<open>The non-NULL cells of a column, in row order; all cells of a column.\<close>

definition column_values :: "string \<Rightarrow> dataframe \<Rightarrow> val list" where
  "column_values c df = concat (map (\<lambda>r. case r c of None \<Rightarrow> [] | Some v \<Rightarrow> [v]) df)"


definition vocabulary :: "string \<Rightarrow> dataframe \<Rightarrow> val list" where
  "vocabulary c df = StringIndexer_fit (column_values c df)"

text \<open>
  \<open>Pipeline(stages=[sI1, en1, ...]).fit(df)\<close>: every indexer is fitted on its input
  column of \<open>df\<close> (the stages before it only add columns); the encoders have nothing to
  fit. The fitted pipeline transforms a row stage by stage.
\<close>

type_synonym fitted_stage = "stage \<times> val list"

definition Pipeline_fit :: "stage list \<Rightarrow> dataframe \<Rightarrow> fitted_stage list" where
  "Pipeline_fit sts df = map (\<lambda>(inC, idxC, vecC). ((inC, idxC, vecC), vocabulary inC df)) sts"

fun PipelineModel_transform :: "fitted_stage list \<Rightarrow> row \<Rightarrow> error + row" where
  "PipelineModel_transform [] r = Inr r"
| "PipelineModel_transform (((inC, idxC, vecC), labels) # ms) r =
     (case StringIndexer_transform labels inC idxC r of
        Inl e \<Rightarrow> Inl e
      | Inr r1 \<Rightarrow>
          (case OneHotEncoder_transform False (length labels) idxC vecC r1 of
             Inl e \<Rightarrow> Inl e
           | Inr r2 \<Rightarrow> PipelineModel_transform ms r2))"


definition encodedFinalValid :: "dataframe \<Rightarrow> dataframe \<Rightarrow> (error + row) list" where
  "encodedFinalValid train_df valid_df =
     map (PipelineModel_transform (Pipeline_fit stages train_df)) valid_df"


section \<open>Feature assembly and the cross-validated fit\<close>













section \<open>Example data\<close>

definition taxi_row ::
  "string \<Rightarrow> int \<Rightarrow> string \<Rightarrow> int \<Rightarrow> int \<Rightarrow> real \<Rightarrow> real \<Rightarrow> real \<Rightarrow> int \<Rightarrow> int \<Rightarrow> row" where
  "taxi_row vendor rate payment passengers secs distance fare tip hour wday =
     null_row
       (''medallion'' := Some (StrV ''M1''),
        ''hack_license'' := Some (StrV ''H1''),
        ''vendor_id'' := Some (StrV vendor),
        ''rate_code'' := Some (IntV rate),
        ''payment_type'' := Some (StrV payment),
        ''passenger_count'' := Some (IntV passengers),
        ''trip_time_in_secs'' := Some (IntV secs),
        ''trip_distance'' := Some (DblV distance),
        ''fare_amount'' := Some (DblV fare),
        ''tip_amount'' := Some (DblV tip),
        ''pickup_hour'' := Some (IntV hour),
        ''weekday'' := Some (IntV wday))"

definition row_a :: row where "row_a = taxi_row ''CMT'' 1 ''CRD'' 1 600 2 10 2 8 3"
definition row_empty_cab :: row where "row_empty_cab = taxi_row ''CMT'' 1 ''CRD'' 0 600 2 10 2 8 3"
definition row_seven :: row where "row_seven = taxi_row ''CMT'' 1 ''CRD'' 7 600 2 10 2 8 3"
definition row_eight :: row where "row_eight = taxi_row ''CMT'' 1 ''CRD'' 8 600 2 10 2 8 3"
definition row_no_charge :: row where "row_no_charge = taxi_row ''CMT'' 1 ''NOC'' 1 600 2 10 2 8 3"
definition row_big_tip :: row where "row_big_tip = taxi_row ''CMT'' 1 ''CRD'' 1 600 2 10 30 8 3"

definition passengers_example :: dataframe where
  "passengers_example = [row_a, row_empty_cab, row_seven, row_eight]"

definition valid_example :: dataframe where
  "valid_example = [row_a, row_no_charge, row_big_tip]"





definition letters_example :: "string list" where
  "letters_example = [''b'', ''a'', ''c'', ''a'', ''b'', ''d'']"



section \<open>Facts about the SQL fragment\<close>

lemma and3_True: "and3 a b = Some True \<longleftrightarrow> a = Some True \<and> b = Some True"
  by (cases "(a, b)" rule: and3.cases) auto

lemma or3_True: "or3 a b = Some True \<longleftrightarrow> a = Some True \<or> b = Some True"
  by (cases "(a, b)" rule: or3.cases) auto

lemma in3_True: "in3 a ss = Some True \<longleftrightarrow> (\<exists>s. a = Some (StrV s) \<and> s \<in> set ss)"
  by (cases "(a, ss)" rule: in3.cases) auto

lemma cmp_True:
  "cmp ord a b = Some True \<longleftrightarrow> (\<exists>x y. num_of a = Some x \<and> num_of b = Some y \<and> ord x y)"
  by (auto simp: cmp_def split: option.splits)

lemma fold_df_drop: "fold df_drop cs df = map (fold drop_col cs) df"
  by (induction cs arbitrary: df) (simp_all add: df_drop_def)

lemma fold_drop_col: "fold drop_col cs r c = (if c \<in> set cs then None else r c)"
  by (induction cs arbitrary: r) (simp_all add: drop_col_def)


section \<open>The time-bucket classifier\<close>

lemma case_when_hour:
  assumes "r ''pickup_hour'' = Some (IntV h)"
  shows "case_when TrafficTimeBins_train r = time_bucket h"
    and "case_when TrafficTimeBins_valid r = time_bucket_valid h"
  using assms
  by (simp_all add: time_bucket_def time_bucket_valid_def TrafficTimeBins_train_def
      TrafficTimeBins_valid_def hour_row_def null_row_def and3_True or3_True cmp_True)

lemma case_when_null_hour:
  assumes "r ''pickup_hour'' = None"
  shows "case_when TrafficTimeBins_train r = None"
    and "case_when TrafficTimeBins_valid r = None"
  using assms
  by (simp_all add: TrafficTimeBins_train_def TrafficTimeBins_valid_def and3_True or3_True
      cmp_True)

lemma time_bucket_cases:
  "time_bucket h =
     (if h \<le> 6 \<or> 20 \<le> h then Some (StrV ''Night'')
      else if h \<le> 10 then Some (StrV ''AMRush'')
      else if h \<le> 15 then Some (StrV ''Afternoon'')
      else Some (StrV ''PMRush''))"
  by (simp add: time_bucket_def TrafficTimeBins_train_def hour_row_def null_row_def and3_True
      or3_True cmp_True)

lemma time_bucket_valid_eq: "time_bucket_valid h = time_bucket h"
  by (simp add: time_bucket_def time_bucket_valid_def TrafficTimeBins_train_def
      TrafficTimeBins_valid_def)

lemma hours_of_Night: "hours_of ''Night'' = {0..6} \<union> {20..23}"
  by (auto simp: hours_of_def time_bucket_cases)

lemma hours_of_AMRush: "hours_of ''AMRush'' = {7..10}"
  by (auto simp: hours_of_def time_bucket_cases)

lemma hours_of_Afternoon: "hours_of ''Afternoon'' = {11..15}"
  by (auto simp: hours_of_def time_bucket_cases)

lemma hours_of_PMRush: "hours_of ''PMRush'' = {16..19}"
  by (auto simp: hours_of_def time_bucket_cases)

lemma ex1_label:
  assumes "l0 \<in> S"
  shows "\<exists>!l. l \<in> S \<and> Some (StrV l0) = Some (StrV l)"
  using assms by auto

lemma time_bucket_label:
  "time_bucket h = Some (StrV ''Night'') \<or> time_bucket h = Some (StrV ''AMRush'')
   \<or> time_bucket h = Some (StrV ''Afternoon'') \<or> time_bucket h = Some (StrV ''PMRush'')"
  by (simp add: time_bucket_cases)

lemma time_bucket_unique:
  "\<exists>!l. l \<in> {''Night'', ''AMRush'', ''Afternoon'', ''PMRush''} \<and> time_bucket h = Some (StrV l)"
proof -
  consider "time_bucket h = Some (StrV ''Night'')" | "time_bucket h = Some (StrV ''AMRush'')"
    | "time_bucket h = Some (StrV ''Afternoon'')" | "time_bucket h = Some (StrV ''PMRush'')"
    using time_bucket_label by blast
  then show ?thesis
  proof cases
    case 1
    show ?thesis unfolding 1 by (rule ex1_label) simp
  next
    case 2
    show ?thesis unfolding 2 by (rule ex1_label) simp
  next
    case 3
    show ?thesis unfolding 3 by (rule ex1_label) simp
  next
    case 4
    show ?thesis unfolding 4 by (rule ex1_label) simp
  qed
qed

text \<open>
  C4. For every integer hour h in [0,23] the classifier returns exactly one of the four
  labels Night, AMRush, Afternoon, PMRush; the four sets of hours are 0-6 with 20-23,
  7-10, 11-15 and 16-19, they are pairwise disjoint and together they are [0,23].
\<close>

theorem time_bucket_partition:
  "(\<forall>h\<in>{0..23}. \<exists>!l. l \<in> {''Night'', ''AMRush'', ''Afternoon'', ''PMRush''}
        \<and> time_bucket h = Some (StrV l))
   \<and> hours_of ''Night'' = {0..6} \<union> {20..23}
   \<and> hours_of ''AMRush'' = {7..10}
   \<and> hours_of ''Afternoon'' = {11..15}
   \<and> hours_of ''PMRush'' = {16..19}
   \<and> hours_of ''Night'' \<inter> hours_of ''AMRush'' = {}
   \<and> hours_of ''Night'' \<inter> hours_of ''Afternoon'' = {}
   \<and> hours_of ''Night'' \<inter> hours_of ''PMRush'' = {}
   \<and> hours_of ''AMRush'' \<inter> hours_of ''Afternoon'' = {}
   \<and> hours_of ''AMRush'' \<inter> hours_of ''PMRush'' = {}
   \<and> hours_of ''Afternoon'' \<inter> hours_of ''PMRush'' = {}
   \<and> hours_of ''Night'' \<union> hours_of ''AMRush'' \<union> hours_of ''Afternoon'' \<union> hours_of ''PMRush''
       = {0..23}"
proof -
  have u: "\<forall>h\<in>{0..23}. \<exists>!l. l \<in> {''Night'', ''AMRush'', ''Afternoon'', ''PMRush''}
        \<and> time_bucket h = Some (StrV l)"
    by (intro ballI) (rule time_bucket_unique)
  have d: "hours_of ''Night'' \<inter> hours_of ''AMRush'' = {}"
    "hours_of ''Night'' \<inter> hours_of ''Afternoon'' = {}"
    "hours_of ''Night'' \<inter> hours_of ''PMRush'' = {}"
    "hours_of ''AMRush'' \<inter> hours_of ''Afternoon'' = {}"
    "hours_of ''AMRush'' \<inter> hours_of ''PMRush'' = {}"
    "hours_of ''Afternoon'' \<inter> hours_of ''PMRush'' = {}"
    unfolding hours_of_Night hours_of_AMRush hours_of_Afternoon hours_of_PMRush by auto
  have c: "hours_of ''Night'' \<union> hours_of ''AMRush'' \<union> hours_of ''Afternoon'' \<union> hours_of ''PMRush''
       = {0..23}"
    unfolding hours_of_Night hours_of_AMRush hours_of_Afternoon hours_of_PMRush by auto
  from u d c hours_of_Night hours_of_AMRush hours_of_Afternoon hours_of_PMRush
  show ?thesis by blast
qed

text \<open>The partition theorem at hour 7, which lies in [0,23].\<close>

theorem time_bucket_partition_witness:
  "(7::int) \<in> {0..23}
   \<and> (\<exists>!l. l \<in> {''Night'', ''AMRush'', ''Afternoon'', ''PMRush''} \<and> time_bucket 7 = Some (StrV l))"
proof -
  have h: "(7::int) \<in> {0..23}" by simp
  from time_bucket_partition
  have "\<forall>h\<in>{0..23}. \<exists>!l. l \<in> {''Night'', ''AMRush'', ''Afternoon'', ''PMRush''}
        \<and> time_bucket h = Some (StrV l)"
    by (rule conjunct1)
  then have "\<exists>!l. l \<in> {''Night'', ''AMRush'', ''Afternoon'', ''PMRush''}
        \<and> time_bucket 7 = Some (StrV l)"
    using h by (rule bspec)
  with h show ?thesis by (rule conjI)
qed

text \<open>
  C5. The classifier maps hour 0 to Night, 6 to Night, 7 to AMRush, 10 to AMRush, 11 to
  Afternoon, 15 to Afternoon, 16 to PMRush, 19 to PMRush, 20 to Night and 23 to Night.
\<close>

theorem time_bucket_concrete_hours:
  "time_bucket 0 = Some (StrV ''Night'') \<and> time_bucket 6 = Some (StrV ''Night'')
   \<and> time_bucket 7 = Some (StrV ''AMRush'') \<and> time_bucket 10 = Some (StrV ''AMRush'')
   \<and> time_bucket 11 = Some (StrV ''Afternoon'') \<and> time_bucket 15 = Some (StrV ''Afternoon'')
   \<and> time_bucket 16 = Some (StrV ''PMRush'') \<and> time_bucket 19 = Some (StrV ''PMRush'')
   \<and> time_bucket 20 = Some (StrV ''Night'') \<and> time_bucket 23 = Some (StrV ''Night'')"
  by (simp add: time_bucket_cases)

text \<open>
  C10, as amended. For every integer hour outside [0,23] (negative or at least 24) the
  first arm of the CASE expression, \<open>pickup_hour <= 6 OR pickup_hour >= 20\<close>, is taken, so
  the TrafficTimeBins column of the record is Night, on the training path and on the
  validation path. No integer hour gives NULL; the column is NULL when \<open>pickup_hour\<close>
  itself is NULL. No input is rejected and there is no fifth label.
\<close>

theorem out_of_range_hours_are_night:
  "(r ''pickup_hour'' = Some (IntV h) \<and> (h < 0 \<or> 24 \<le> h) \<longrightarrow>
       case_when TrafficTimeBins_train r = Some (StrV ''Night'')
       \<and> case_when TrafficTimeBins_valid r = Some (StrV ''Night''))
   \<and> (r ''pickup_hour'' = Some (IntV h) \<longrightarrow>
       case_when TrafficTimeBins_train r \<noteq> None \<and> case_when TrafficTimeBins_valid r \<noteq> None)
   \<and> (r ''pickup_hour'' = None \<longrightarrow>
       case_when TrafficTimeBins_train r = None \<and> case_when TrafficTimeBins_valid r = None)"
  by (auto simp: case_when_hour case_when_null_hour time_bucket_valid_eq time_bucket_cases)

text \<open>The amended statement at hour 24 and at a row whose hour is NULL.\<close>

theorem out_of_range_hours_are_night_witness:
  "hour_row 24 ''pickup_hour'' = Some (IntV 24) \<and> ((24::int) < 0 \<or> (24::int) \<le> 24)
   \<and> case_when TrafficTimeBins_train (hour_row 24) = Some (StrV ''Night'')
   \<and> case_when TrafficTimeBins_valid (hour_row 24) = Some (StrV ''Night'')
   \<and> case_when TrafficTimeBins_train (hour_row 24) \<noteq> None
   \<and> null_row ''pickup_hour'' = None
   \<and> case_when TrafficTimeBins_train null_row = None
   \<and> case_when TrafficTimeBins_valid null_row = None"
proof -
  have a: "hour_row 24 ''pickup_hour'' = Some (IntV 24)" by (simp add: hour_row_def)
  have b: "null_row ''pickup_hour'' = None" by (simp add: null_row_def)
  show ?thesis
    using a b out_of_range_hours_are_night [of "hour_row 24" 24]
      out_of_range_hours_are_night [of null_row 0]
    by simp
qed

text \<open>
  The claim as it was stated, that an hour outside [0,23] gives NULL, fails at hour 24 and
  at hour -1 on both paths: the value is Night.
\<close>

theorem out_of_range_hour_counterexample:
  "time_bucket 24 = Some (StrV ''Night'') \<and> time_bucket 24 \<noteq> None
   \<and> time_bucket (- 1) = Some (StrV ''Night'') \<and> time_bucket (- 1) \<noteq> None
   \<and> time_bucket_valid 24 = Some (StrV ''Night'') \<and> time_bucket_valid 24 \<noteq> None
   \<and> time_bucket_valid (- 1) = Some (StrV ''Night'') \<and> time_bucket_valid (- 1) \<noteq> None"
  by (simp add: time_bucket_valid_eq time_bucket_cases)


section \<open>Cleaning\<close>

lemma passenger_range:
  assumes "int_cell c r"
  shows "(eval_cond r (Gt (Col c) (IntLit 0)) = Some True
          \<and> eval_cond r (Lt (Col c) (IntLit 8)) = Some True) \<longleftrightarrow> int_in r c 1 7"
  using assms
  by (auto simp: int_cell_def int_in_def cmp_True split: option.splits val.splits)

lemma ge_lt_range:
  "(eval_cond r (Ge (Col c) (IntLit a)) = Some True
    \<and> eval_cond r (Lt (Col c) (IntLit b)) = Some True)
   \<longleftrightarrow> num_where r c (\<lambda>x. real_of_int a \<le> x \<and> x < real_of_int b)"
  by (auto simp: num_where_def cmp_True split: option.splits)

lemma gt_lt_range:
  "(eval_cond r (Gt (Col c) (IntLit a)) = Some True
    \<and> eval_cond r (Lt (Col c) (IntLit b)) = Some True)
   \<longleftrightarrow> num_where r c (\<lambda>x. real_of_int a < x \<and> x < real_of_int b)"
  by (auto simp: num_where_def cmp_True split: option.splits)

lemma train_filter_iff:
  assumes "int_cell ''passenger_count'' r"
  shows "eval_cond r train_filter = Some True \<longleftrightarrow> int_in r ''passenger_count'' 1 7"
  unfolding train_filter_def eval_cond.simps(6) and3_True passenger_range [OF assms] ..

lemma valid_filter_iff:
  assumes "int_cell ''passenger_count'' r"
  shows "eval_cond r valid_filter = Some True \<longleftrightarrow> spec_valid_invariant r"
proof -
  have "eval_cond r valid_filter = Some True \<longleftrightarrow>
    ((eval_cond r (Gt (Col ''passenger_count'') (IntLit 0)) = Some True
      \<and> eval_cond r (Lt (Col ''passenger_count'') (IntLit 8)) = Some True)
    \<and> eval_cond r (In (Col ''payment_type'') [''CSH'', ''CRD'']) = Some True
    \<and> (eval_cond r (Ge (Col ''tip_amount'') (IntLit 0)) = Some True
      \<and> eval_cond r (Lt (Col ''tip_amount'') (IntLit 30)) = Some True)
    \<and> (eval_cond r (Ge (Col ''fare_amount'') (IntLit 1)) = Some True
      \<and> eval_cond r (Lt (Col ''fare_amount'') (IntLit 200)) = Some True)
    \<and> (eval_cond r (Gt (Col ''trip_distance'') (IntLit 0)) = Some True
      \<and> eval_cond r (Lt (Col ''trip_distance'') (IntLit 100)) = Some True)
    \<and> (eval_cond r (Gt (Col ''trip_time_in_secs'') (IntLit 30)) = Some True
      \<and> eval_cond r (Lt (Col ''trip_time_in_secs'') (IntLit 7200)) = Some True))"
    unfolding valid_filter_def foldl.simps eval_cond.simps(6) and3_True by blast
  also have "\<dots> \<longleftrightarrow> spec_valid_invariant r"
    unfolding passenger_range [OF assms]
    unfolding ge_lt_range gt_lt_range spec_valid_invariant_def
    by (auto simp: in3_True)
  finally show ?thesis .
qed

lemma train_drops_passenger: "train_drops r ''passenger_count'' = r ''passenger_count''"
  by (simp add: train_drops_def drop_col_def)

lemma valid_drops_keep:
  "c \<notin> set valid_dropped_columns \<Longrightarrow> valid_drops r c = r c"
  by (simp add: valid_drops_def fold_drop_col)

lemma valid_drops_invariant: "spec_valid_invariant (valid_drops r) = spec_valid_invariant r"
  by (simp add: spec_valid_invariant_def int_in_def num_where_def valid_drops_keep
      valid_dropped_columns_def)

lemma valid_drops_int_cell:
  "int_cell ''passenger_count'' (valid_drops r) = int_cell ''passenger_count'' r"
  by (simp add: int_cell_def valid_drops_keep valid_dropped_columns_def)

text \<open>
  C7. On an integer passenger-count column, the training cleaning keeps exactly the
  records with passenger count in [1,7], in their order and without the two dropped
  columns: every surviving record has passenger count in [1,7], every record with
  passenger count 7 is kept, and no surviving record has passenger count 0 or 8.
\<close>

theorem train_cleaning_passenger_count:
  assumes "list_all (int_cell ''passenger_count'') df"
  shows "taxi_df_train_cleaned df
           = map train_drops (filter (\<lambda>r. int_in r ''passenger_count'' 1 7) df)
     \<and> (\<forall>r'\<in>set (taxi_df_train_cleaned df). int_in r' ''passenger_count'' 1 7)
     \<and> (\<forall>r\<in>set df. r ''passenger_count'' = Some (IntV 7)
           \<longrightarrow> train_drops r \<in> set (taxi_df_train_cleaned df))
     \<and> (\<forall>r'\<in>set (taxi_df_train_cleaned df).
           r' ''passenger_count'' \<noteq> Some (IntV 0) \<and> r' ''passenger_count'' \<noteq> Some (IntV 8))"
proof -
  have typed: "int_cell ''passenger_count'' r" if "r \<in> set df" for r
    using that assms by (simp add: list_all_iff)
  have "eval_cond (train_drops r) train_filter = Some True \<longleftrightarrow> int_in r ''passenger_count'' 1 7"
    if "r \<in> set df" for r
    using typed [OF that] train_filter_iff [of "train_drops r"]
    by (simp add: int_cell_def int_in_def train_drops_passenger)
  then have eq: "taxi_df_train_cleaned df
           = map train_drops (filter (\<lambda>r. int_in r ''passenger_count'' 1 7) df)"
    unfolding taxi_df_train_cleaned_def df_filter_def df_drop_def filter_map o_def map_map
    by (auto simp: train_drops_def [abs_def] intro!: arg_cong [where f = "map _"] filter_cong)
  show ?thesis
    unfolding eq by (auto simp: int_in_def train_drops_passenger)
qed

text \<open>
  The training cleaning on four records with passenger counts 1, 0, 7 and 8: the first and
  the third survive.
\<close>

theorem train_cleaning_passenger_count_witness:
  "list_all (int_cell ''passenger_count'') passengers_example
   \<and> taxi_df_train_cleaned passengers_example = [train_drops row_a, train_drops row_seven]
   \<and> row_seven \<in> set passengers_example
   \<and> row_seven ''passenger_count'' = Some (IntV 7)
   \<and> train_drops row_seven \<in> set (taxi_df_train_cleaned passengers_example)
   \<and> int_in (train_drops row_seven) ''passenger_count'' 1 7"
proof -
  have h: "list_all (int_cell ''passenger_count'') passengers_example"
    by code_simp
  note t = train_cleaning_passenger_count [OF h]
  have seven: "row_seven \<in> set passengers_example"
    by (simp add: passengers_example_def)
  have pc7: "row_seven ''passenger_count'' = Some (IntV 7)"
    by code_simp
  have keep: "int_in row_a ''passenger_count'' 1 7" "int_in row_seven ''passenger_count'' 1 7"
    "\<not> int_in row_empty_cab ''passenger_count'' 1 7" "\<not> int_in row_eight ''passenger_count'' 1 7"
    by code_simp+
  have cleaned:
    "taxi_df_train_cleaned passengers_example = [train_drops row_a, train_drops row_seven]"
    unfolding t [THEN conjunct1] by (simp add: passengers_example_def keep)
  have mem: "train_drops row_seven \<in> set (taxi_df_train_cleaned passengers_example)"
    by (rule t [THEN conjunct2, THEN conjunct2, THEN conjunct1, rule_format, OF seven pc7])
  have inv: "int_in (train_drops row_seven) ''passenger_count'' 1 7"
    by (rule t [THEN conjunct2, THEN conjunct1, rule_format, OF mem])
  from h cleaned seven pc7 mem inv show ?thesis by (intro conjI)
qed

text \<open>
  C8. On an integer passenger-count column, the validation cleaning keeps exactly the
  records with passenger count in [1,7], payment type CSH or CRD, tip amount in [0,30),
  fare amount in [1,200), trip distance in (0,100) and trip time in (30,7200): every
  surviving record satisfies all six, and every record that violates one is excluded.
\<close>

theorem valid_cleaning_invariant:
  assumes "list_all (int_cell ''passenger_count'') df"
  shows "taxi_df_valid_cleaned df = map valid_drops (filter spec_valid_invariant df)
     \<and> (\<forall>r'\<in>set (taxi_df_valid_cleaned df). spec_valid_invariant r')
     \<and> (\<forall>r\<in>set df. \<not> spec_valid_invariant r
           \<longrightarrow> valid_drops r \<notin> set (taxi_df_valid_cleaned df))"
proof -
  have typed: "int_cell ''passenger_count'' r" if "r \<in> set df" for r
    using that assms by (simp add: list_all_iff)
  have "eval_cond (valid_drops r) valid_filter = Some True \<longleftrightarrow> spec_valid_invariant r"
    if "r \<in> set df" for r
    using typed [OF that] valid_filter_iff [of "valid_drops r"]
    by (simp add: valid_drops_int_cell valid_drops_invariant)
  then have eq: "taxi_df_valid_cleaned df = map valid_drops (filter spec_valid_invariant df)"
    unfolding taxi_df_valid_cleaned_def df_filter_def fold_df_drop filter_map o_def
    by (auto simp: valid_drops_def [abs_def] intro!: arg_cong [where f = "map _"] filter_cong)
  have inv: "\<forall>r'\<in>set (taxi_df_valid_cleaned df). spec_valid_invariant r'"
    unfolding eq by (auto simp: valid_drops_invariant)
  have "valid_drops r \<notin> set (taxi_df_valid_cleaned df)" if "\<not> spec_valid_invariant r" for r
    using that inv valid_drops_invariant [of r] by blast
  with eq inv show ?thesis by blast
qed

text \<open>
  The validation cleaning on three records: a valid one, one paid by neither cash nor
  credit, one with a tip of 30. Only the first survives.
\<close>

theorem valid_cleaning_invariant_witness:
  "list_all (int_cell ''passenger_count'') valid_example
   \<and> taxi_df_valid_cleaned valid_example = [valid_drops row_a]
   \<and> valid_drops row_a \<in> set (taxi_df_valid_cleaned valid_example)
   \<and> spec_valid_invariant (valid_drops row_a)
   \<and> row_big_tip \<in> set valid_example
   \<and> \<not> spec_valid_invariant row_big_tip
   \<and> valid_drops row_big_tip \<notin> set (taxi_df_valid_cleaned valid_example)"
proof -
  have h: "list_all (int_cell ''passenger_count'') valid_example"
    by code_simp
  note t = valid_cleaning_invariant [OF h]
  have keep: "spec_valid_invariant row_a" "\<not> spec_valid_invariant row_no_charge"
    "\<not> spec_valid_invariant row_big_tip"
    by code_simp+
  have cleaned: "taxi_df_valid_cleaned valid_example = [valid_drops row_a]"
    unfolding t [THEN conjunct1] by (simp add: valid_example_def keep)
  have mem: "valid_drops row_a \<in> set (taxi_df_valid_cleaned valid_example)"
    unfolding cleaned by simp
  have inv: "spec_valid_invariant (valid_drops row_a)"
    by (rule t [THEN conjunct2, THEN conjunct1, rule_format, OF mem])
  have big: "row_big_tip \<in> set valid_example"
    by (simp add: valid_example_def)
  have out: "valid_drops row_big_tip \<notin> set (taxi_df_valid_cleaned valid_example)"
    by (rule t [THEN conjunct2, THEN conjunct2, rule_format, OF big keep(3)])
  from h cleaned mem inv big keep(3) out show ?thesis by (intro conjI)
qed


section \<open>The fitted vocabulary\<close>

lemma set_first_seen: "set (first_seen xs) = set xs"
  by (induction xs rule: first_seen.induct) auto

lemma distinct_first_seen: "distinct (first_seen xs)"
  by (induction xs rule: first_seen.induct) (auto simp: set_first_seen)

lemma first_pos_less: "a \<in> set xs \<Longrightarrow> first_pos xs a < length xs"
  by (induction xs) auto

lemma nth_first_pos: "a \<in> set xs \<Longrightarrow> xs ! first_pos xs a = a"
  by (induction xs) auto

lemma first_pos_nth: "distinct xs \<Longrightarrow> i < length xs \<Longrightarrow> first_pos xs (xs ! i) = i"
proof (induction xs arbitrary: i)
  case Nil
  then show ?case by simp
next
  case (Cons x xs)
  then show ?case by (cases i) auto
qed

text \<open>Removing the occurrences of another value does not change who is seen first.\<close>

lemma first_pos_filter:
  assumes "a \<in> set xs" "b \<in> set xs" "a \<noteq> x" "b \<noteq> x"
  shows "first_pos (filter (\<lambda>y. y \<noteq> x) xs) a < first_pos (filter (\<lambda>y. y \<noteq> x) xs) b
         \<longleftrightarrow> first_pos xs a < first_pos xs b"
  using assms by (induction xs) auto

lemma first_seen_order:
  "sorted_wrt (\<lambda>a b. first_pos xs a < first_pos xs b) (first_seen xs)"
proof (induction xs rule: first_seen.induct)
  case 1
  then show ?case by simp
next
  case (2 x xs)
  let ?ys = "filter (\<lambda>y. y \<noteq> x) xs"
  have mem: "a \<in> set xs \<and> a \<noteq> x" if "a \<in> set (first_seen ?ys)" for a
    using that by (simp add: set_first_seen)
  have "sorted_wrt (\<lambda>a b. first_pos (x # xs) a < first_pos (x # xs) b) (first_seen ?ys)"
  proof (rule sorted_wrt_mono_rel [OF _ "2.IH"])
    fix a b
    assume "a \<in> set (first_seen ?ys)" "b \<in> set (first_seen ?ys)"
      and "first_pos ?ys a < first_pos ?ys b"
    then show "first_pos (x # xs) a < first_pos (x # xs) b"
      using mem [of a] mem [of b] first_pos_filter [of a xs b x] by auto
  qed
  moreover have "first_pos (x # xs) x < first_pos (x # xs) b"
    if "b \<in> set (first_seen ?ys)" for b
    using mem [OF that] by auto
  ultimately show ?case by simp
qed

text \<open>
  Insertion sort by a key is stable: a list ordered by \<open>R\<close> comes out ordered by the key
  and, among equal keys, by \<open>R\<close>.
\<close>

lemma insort_key_lex:
  fixes f :: "'a \<Rightarrow> 'k::linorder"
  assumes "sorted_wrt (\<lambda>a b. f a < f b \<or> (f a = f b \<and> R a b)) zs"
      and "\<forall>z\<in>set zs. R y z"
  shows "sorted_wrt (\<lambda>a b. f a < f b \<or> (f a = f b \<and> R a b)) (insort_key f y zs)"
  using assms
proof (induction zs)
  case Nil
  then show ?case by simp
next
  case (Cons z zs)
  show ?case
  proof (cases "f y \<le> f z")
    case True
    have "f y < f w \<or> (f y = f w \<and> R y w)" if "w \<in> set (z # zs)" for w
    proof -
      have "f z \<le> f w" using that Cons.prems(1) by auto
      with True have "f y \<le> f w" by simp
      moreover have "R y w" using that Cons.prems(2) by auto
      ultimately show ?thesis by auto
    qed
    with True Cons.prems(1) show ?thesis by simp
  next
    case False
    then have "f z < f y" by simp
    moreover have "sorted_wrt (\<lambda>a b. f a < f b \<or> (f a = f b \<and> R a b)) (insort_key f y zs)"
      using Cons by simp
    ultimately show ?thesis
      using False Cons.prems(1) by (auto simp: set_insort_key)
  qed
qed

lemma sort_key_lex:
  fixes f :: "'a \<Rightarrow> 'k::linorder"
  assumes "sorted_wrt R ys"
  shows "sorted_wrt (\<lambda>a b. f a < f b \<or> (f a = f b \<and> R a b)) (sort_key f ys)"
  using assms
proof (induction ys)
  case Nil
  then show ?case by simp
next
  case (Cons y ys)
  then show ?case by (simp add: insort_key_lex)
qed

lemma set_StringIndexer_fit: "set (StringIndexer_fit xs) = set xs"
  by (simp add: StringIndexer_fit_def set_first_seen)

lemma distinct_StringIndexer_fit: "distinct (StringIndexer_fit xs)"
  by (simp add: StringIndexer_fit_def distinct_first_seen)

lemma StringIndexer_fit_order:
  "sorted_wrt (\<lambda>a b. count_list xs b < count_list xs a
       \<or> (count_list xs a = count_list xs b \<and> first_pos xs a < first_pos xs b))
     (StringIndexer_fit xs)"
proof -
  have "sorted_wrt (\<lambda>a b. - int (count_list xs a) < - int (count_list xs b)
       \<or> (- int (count_list xs a) = - int (count_list xs b) \<and> first_pos xs a < first_pos xs b))
     (StringIndexer_fit xs)"
    unfolding StringIndexer_fit_def by (rule sort_key_lex [OF first_seen_order])
  then show ?thesis by simp
qed

text \<open>The example of the notebook's text: in a, b, b, b, a the value b gets index 0.\<close>

lemma StringIndexer_fit_notebook_example:
  "StringIndexer_fit [''a'', ''b'', ''b'', ''b'', ''a''] = [''b'', ''a'']"
  by code_simp

text \<open>
  C3. The vocabulary fitted for a column maps exactly the distinct values observed in the
  training data to the dense indices 0..n-1 (n the number of distinct values; a value not
  observed has no index), assigned in order of descending frequency, ties broken by
  first-seen order.
\<close>

theorem StringIndexer_fit_vocabulary:
  "set (StringIndexer_fit xs) = set xs
   \<and> distinct (StringIndexer_fit xs)
   \<and> length (StringIndexer_fit xs) = card (set xs)
   \<and> (\<forall>v\<in>set xs. \<exists>i<card (set xs).
         label_index (StringIndexer_fit xs) v = Inr i \<and> StringIndexer_fit xs ! i = v)
   \<and> (\<forall>i<card (set xs). \<exists>v\<in>set xs. label_index (StringIndexer_fit xs) v = Inr i)
   \<and> (\<forall>v. v \<notin> set xs \<longrightarrow> label_index (StringIndexer_fit xs) v = Inl UnseenLabel)
   \<and> (\<forall>i j. i < j \<and> j < card (set xs) \<longrightarrow>
         count_list xs (StringIndexer_fit xs ! j) \<le> count_list xs (StringIndexer_fit xs ! i)
         \<and> (count_list xs (StringIndexer_fit xs ! j) = count_list xs (StringIndexer_fit xs ! i)
              \<longrightarrow> first_pos xs (StringIndexer_fit xs ! i) < first_pos xs (StringIndexer_fit xs ! j)))"
proof -
  let ?ls = "StringIndexer_fit xs"
  have s: "set ?ls = set xs" and d: "distinct ?ls"
    by (rule set_StringIndexer_fit, rule distinct_StringIndexer_fit)
  have n: "length ?ls = card (set xs)"
    using distinct_card [OF d] s by simp
  have fwd: "\<forall>v\<in>set xs. \<exists>i<card (set xs). label_index ?ls v = Inr i \<and> ?ls ! i = v"
    using s n first_pos_less [of _ ?ls] nth_first_pos [of _ ?ls]
    by (auto simp: label_index_def)
  have bwd: "\<forall>i<card (set xs). \<exists>v\<in>set xs. label_index ?ls v = Inr i"
  proof (intro allI impI)
    fix i assume "i < card (set xs)"
    then have i: "i < length ?ls" by (simp add: n)
    then have "?ls ! i \<in> set xs" using s nth_mem by blast
    moreover have "label_index ?ls (?ls ! i) = Inr i"
      using i d by (simp add: label_index_def first_pos_nth)
    ultimately show "\<exists>v\<in>set xs. label_index ?ls v = Inr i" by blast
  qed
  have unseen: "\<forall>v. v \<notin> set xs \<longrightarrow> label_index ?ls v = Inl UnseenLabel"
    by (simp add: label_index_def s)
  have ord: "\<forall>i j. i < j \<and> j < card (set xs) \<longrightarrow>
         count_list xs (?ls ! j) \<le> count_list xs (?ls ! i)
         \<and> (count_list xs (?ls ! j) = count_list xs (?ls ! i)
              \<longrightarrow> first_pos xs (?ls ! i) < first_pos xs (?ls ! j))"
    using StringIndexer_fit_order [of xs] unfolding sorted_wrt_iff_nth_less n by fastforce
  from s d n fwd bwd unseen ord show ?thesis by blast
qed

text \<open>
  The vocabulary of the column b, a, c, a, b, d: the value a is seen and has an index below
  4, the index 1 is taken, the value z is unseen, and positions 0 and 1 hold a tie that
  first-seen order decides.
\<close>

theorem StringIndexer_fit_vocabulary_witness:
  "''a'' \<in> set letters_example
   \<and> (\<exists>i<card (set letters_example).
         label_index (StringIndexer_fit letters_example) ''a'' = Inr i
         \<and> StringIndexer_fit letters_example ! i = ''a'')
   \<and> (1::nat) < card (set letters_example)
   \<and> (\<exists>v\<in>set letters_example. label_index (StringIndexer_fit letters_example) v = Inr 1)
   \<and> ''z'' \<notin> set letters_example
   \<and> label_index (StringIndexer_fit letters_example) ''z'' = Inl UnseenLabel
   \<and> (0::nat) < 1
   \<and> count_list letters_example (StringIndexer_fit letters_example ! 1)
       = count_list letters_example (StringIndexer_fit letters_example ! 0)
   \<and> first_pos letters_example (StringIndexer_fit letters_example ! 0)
       < first_pos letters_example (StringIndexer_fit letters_example ! 1)"
proof -
  note t = StringIndexer_fit_vocabulary [of letters_example]
  note t4 = t [THEN conjunct2, THEN conjunct2, THEN conjunct2, THEN conjunct1]
  note t5 = t [THEN conjunct2, THEN conjunct2, THEN conjunct2, THEN conjunct2, THEN conjunct1]
  note t6 = t [THEN conjunct2, THEN conjunct2, THEN conjunct2, THEN conjunct2, THEN conjunct2,
      THEN conjunct1]
  note t7 = t [THEN conjunct2, THEN conjunct2, THEN conjunct2, THEN conjunct2, THEN conjunct2,
      THEN conjunct2]
  have a: "''a'' \<in> set letters_example" by code_simp
  have one: "(1::nat) < card (set letters_example)" by code_simp
  have z: "''z'' \<notin> set letters_example" by code_simp
  have tie: "count_list letters_example (StringIndexer_fit letters_example ! 1)
       = count_list letters_example (StringIndexer_fit letters_example ! 0)"
    by code_simp
  have c1: "\<exists>i<card (set letters_example).
         label_index (StringIndexer_fit letters_example) ''a'' = Inr i
         \<and> StringIndexer_fit letters_example ! i = ''a''"
    by (rule t4 [rule_format, OF a])
  have c2: "\<exists>v\<in>set letters_example. label_index (StringIndexer_fit letters_example) v = Inr 1"
    by (rule t5 [rule_format, OF one])
  have c3: "label_index (StringIndexer_fit letters_example) ''z'' = Inl UnseenLabel"
    by (rule t6 [rule_format, OF z])
  have "(0::nat) < 1 \<and> 1 < card (set letters_example)" using one by simp
  from t7 [rule_format, OF this]
  have c4: "first_pos letters_example (StringIndexer_fit letters_example ! 0)
       < first_pos letters_example (StringIndexer_fit letters_example ! 1)"
    using tie by simp
  have zero: "(0::nat) < 1" by simp
  from a c1 one c2 z c3 zero tie c4 show ?thesis by (intro conjI)
qed


section \<open>One-hot encoding\<close>

lemma length_one_hot: "length (one_hot False n i) = n"
  by (simp add: one_hot_def)

lemma nth_one_hot: "j < n \<Longrightarrow> one_hot False n i ! j = (if j = i then 1 else 0)"
  by (simp add: one_hot_def)

lemma count_one_hot:
  "length (filter (\<lambda>x. x \<noteq> 0) (one_hot False n i)) = (if i < n then 1 else 0)"
  by (induction n) (auto simp: one_hot_def)

text \<open>
  C6. For every value in a fitted vocabulary, one-hot encoding (with \<open>dropLast=False\<close>)
  yields a vector whose length is the size of the vocabulary and in which exactly one
  position is set: the position of the value's index holds 1, every other position 0.
\<close>

theorem one_hot_fitted_vocabulary:
  assumes "v \<in> set xs"
  shows "\<exists>i vec. label_index (StringIndexer_fit xs) v = Inr i
     \<and> encode_value (StringIndexer_fit xs) v = Inr vec
     \<and> length vec = length (StringIndexer_fit xs)
     \<and> i < length vec \<and> vec ! i = 1
     \<and> (\<forall>j<length vec. j \<noteq> i \<longrightarrow> vec ! j = 0)
     \<and> length (filter (\<lambda>x. x \<noteq> 0) vec) = 1"
proof -
  let ?ls = "StringIndexer_fit xs"
  let ?i = "first_pos ?ls v"
  let ?vec = "one_hot False (length ?ls) ?i"
  have v: "v \<in> set ?ls" using assms by (simp add: set_StringIndexer_fit)
  then have i: "?i < length ?ls" by (rule first_pos_less)
  have li: "label_index ?ls v = Inr ?i" using v by (simp add: label_index_def)
  have enc: "encode_value ?ls v = Inr ?vec" by (simp add: encode_value_def li)
  have cnt: "length (filter (\<lambda>x. x \<noteq> 0) ?vec) = 1"
    using i by (simp add: count_one_hot)
  show ?thesis
    using li enc i cnt by (auto simp: length_one_hot nth_one_hot)
qed

text \<open>The encoding of the value c under the vocabulary of the column b, a, c, a, b, d.\<close>

theorem one_hot_fitted_vocabulary_witness:
  "''c'' \<in> set letters_example
   \<and> encode_value (StringIndexer_fit letters_example) ''c'' = Inr [0, 0, 1, 0]
   \<and> (\<exists>i vec. label_index (StringIndexer_fit letters_example) ''c'' = Inr i
       \<and> encode_value (StringIndexer_fit letters_example) ''c'' = Inr vec
       \<and> length vec = length (StringIndexer_fit letters_example)
       \<and> i < length vec \<and> vec ! i = 1
       \<and> (\<forall>j<length vec. j \<noteq> i \<longrightarrow> vec ! j = 0)
       \<and> length (filter (\<lambda>x. x \<noteq> 0) vec) = 1)"
proof -
  have c: "''c'' \<in> set letters_example" by code_simp
  have e: "encode_value (StringIndexer_fit letters_example) ''c'' = Inr [0, 0, 1, 0]"
    by code_simp
  from c e one_hot_fitted_vocabulary [OF c] show ?thesis by (intro conjI)
qed


section \<open>The assembled feature vector\<close>











section \<open>Vocabularies and cross-validation folds\<close>








end
